theory Spec2Isabelle
  imports Main "HOL-Library.Multiset"
begin

section \<open>Data model (models/event.model.ts, models/reservation.model.ts)\<close>

text \<open>
  JavaScript numbers that hold seat counts and versions are modelled as unbounded
  integers, \<open>Date\<close> values as natural numbers (milliseconds), and a collection as the
  list of its documents in insertion order. The reservation's \<open>event_id\<close> and
  \<open>created_at\<close> fields carry the prefix \<open>r_\<close> because a field name can be declared
  only once.
\<close>

record IEvent =
  event_id :: string
  name :: string
  total_seats :: int
  available_seats :: int
  version :: int
  created_at :: nat
  updated_at :: nat

datatype ReservationStatus = Confirmed | Cancelled

record IReservation =
  reservation_id :: string
  r_event_id :: string
  partner_id :: string
  seats :: int
  status :: ReservationStatus
  r_created_at :: nat
  cancelled_at :: "nat option"

record database =
  events :: "IEvent list"
  reservations :: "IReservation list"

text \<open>The messages of \<open>ERROR_MESSAGES\<close> that the service throws, the validation error
  of the reservation schema and the duplicate-key error of the unique index on
  \<open>reservation_id\<close>.\<close>

datatype error =
    EVENT_NOT_FOUND
  | NOT_ENOUGH_SEATS
  | CONCURRENT_UPDATE_DETECTED
  | RESERVATION_NOT_FOUND
  | VALIDATION_ERROR
  | DUPLICATE_KEY

section \<open>Storage primitives\<close>

text \<open>
  \<open>Model.updateOne(filter, update)\<close>: the first document that satisfies the filter is
  rewritten; \<open>modifiedCount\<close> is 1 when that document changed and 0 otherwise (no
  match, or an update that leaves the document as it was).
\<close>

fun updateOne :: "('a \<Rightarrow> bool) \<Rightarrow> ('a \<Rightarrow> 'a) \<Rightarrow> 'a list \<Rightarrow> nat \<times> 'a list" where
  "updateOne q u [] = (0, [])"
| "updateOne q u (d # ds) =
     (if q d then ((if u d = d then 0 else 1), u d # ds)
      else (case updateOne q u ds of (n, ds') \<Rightarrow> (n, d # ds')))"

section \<open>EventRepository\<close>

definition findById :: "database \<Rightarrow> string \<Rightarrow> IEvent option" where
  "findById db eventId = find (\<lambda>e. event_id e = eventId) (events db)"

definition updateSeatsWithVersion ::
  "database \<Rightarrow> string \<Rightarrow> int \<Rightarrow> int \<Rightarrow> nat \<Rightarrow> bool \<times> database" where
  "updateSeatsWithVersion db eventId seatsChange currentVersion now =
     (case updateOne
        (\<lambda>e. event_id e = eventId \<and> version e = currentVersion
               \<and> available_seats e + seatsChange \<ge> 0)
        (\<lambda>e. e\<lparr>available_seats := available_seats e + seatsChange,
                version := version e + 1,
                updated_at := now\<rparr>)
        (events db)
      of (modifiedCount, es) \<Rightarrow> (modifiedCount > 0, db\<lparr>events := es\<rparr>))"

definition getReservationCount :: "database \<Rightarrow> string \<Rightarrow> nat" where
  "getReservationCount db eventId =
     length (filter (\<lambda>r. r_event_id r = eventId \<and> status r = Confirmed) (reservations db))"

section \<open>ReservationRepository\<close>

text \<open>
  \<open>ReservationModel.create\<close> validates the document against the schema before anything is
  written: \<open>reservation_id\<close>, \<open>event_id\<close> and \<open>partner_id\<close> are \<open>required\<close> strings, and
  the required validator rejects the empty string. A document that passes is inserted
  unless the unique index on \<open>reservation_id\<close> already holds its id.
\<close>

definition create ::
  "database \<Rightarrow> string \<Rightarrow> string \<Rightarrow> string \<Rightarrow> int \<Rightarrow> nat \<Rightarrow> error + (IReservation \<times> database)" where
  "create db reservationId eventId partnerId seatsN now =
     (if reservationId = [] \<or> eventId = [] \<or> partnerId = [] then Inl VALIDATION_ERROR
      else if reservationId \<in> set (map reservation_id (reservations db)) then Inl DUPLICATE_KEY
      else
        (let reservation = \<lparr>reservation_id = reservationId, r_event_id = eventId,
                             partner_id = partnerId, seats = seatsN, status = Confirmed,
                             r_created_at = now, cancelled_at = None\<rparr>
         in Inr (reservation, db\<lparr>reservations := reservations db @ [reservation]\<rparr>)))"

definition findConfirmedById :: "database \<Rightarrow> string \<Rightarrow> IReservation option" where
  "findConfirmedById db reservationId =
     find (\<lambda>r. reservation_id r = reservationId \<and> status r = Confirmed) (reservations db)"

definition cancel :: "database \<Rightarrow> string \<Rightarrow> nat \<Rightarrow> bool \<times> database" where
  "cancel db reservationId now =
     (case updateOne
        (\<lambda>r. reservation_id r = reservationId)
        (\<lambda>r. r\<lparr>status := Cancelled, cancelled_at := Some now\<rparr>)
        (reservations db)
      of (modifiedCount, rs) \<Rightarrow> (modifiedCount > 0, db\<lparr>reservations := rs\<rparr>))"

section \<open>Transactions\<close>

text \<open>
  A session works on its own view of the store, which starts as the committed store.
  \<open>commitTransaction\<close> publishes the view, \<open>abortTransaction\<close> discards it.
\<close>

definition commitTransaction :: "database \<Rightarrow> database \<Rightarrow> database" where
  "commitTransaction committed working = working"

definition abortTransaction :: "database \<Rightarrow> database \<Rightarrow> database" where
  "abortTransaction committed working = committed"

section \<open>ReservationService\<close>

text \<open>
  Each service method is split where the source is: the body of the \<open>try\<close> block returns
  the outcome together with the session's view at the point where it left the block, and
  the method itself commits on a result and aborts on a thrown error. The part of the
  block after the reads is a function of the values that were read and of the view the
  later storage calls run against; in an isolated run that view is the one that was read.
  \<open>rid\<close> is the value \<open>uuidv4()\<close> returns and \<open>now\<close> the clock reading of the call.
\<close>

definition reserveSeats_after_read ::
  "database \<Rightarrow> IEvent \<Rightarrow> string \<Rightarrow> string \<Rightarrow> int \<Rightarrow> string \<Rightarrow> nat \<Rightarrow> (error + string) \<times> database" where
  "reserveSeats_after_read w event eventId partnerId seatsN rid now =
     (if available_seats event < seatsN then (Inl NOT_ENOUGH_SEATS, w)
      else
        (case updateSeatsWithVersion w eventId (- seatsN) (version event) now of
           (updated, w1) \<Rightarrow>
             if \<not> updated then (Inl CONCURRENT_UPDATE_DETECTED, w1)
             else
               (case create w1 rid eventId partnerId seatsN now of
                  Inl e \<Rightarrow> (Inl e, w1)
                | Inr (reservation, w2) \<Rightarrow> (Inr rid, w2))))"

definition reserveSeats_try ::
  "database \<Rightarrow> string \<Rightarrow> string \<Rightarrow> int \<Rightarrow> string \<Rightarrow> nat \<Rightarrow> (error + string) \<times> database" where
  "reserveSeats_try w eventId partnerId seatsN rid now =
     (case findById w eventId of
        None \<Rightarrow> (Inl EVENT_NOT_FOUND, w)
      | Some event \<Rightarrow> reserveSeats_after_read w event eventId partnerId seatsN rid now)"

definition reserveSeats ::
  "database \<Rightarrow> string \<Rightarrow> string \<Rightarrow> int \<Rightarrow> string \<Rightarrow> nat \<Rightarrow> (error + string) \<times> database" where
  "reserveSeats db eventId partnerId seatsN rid now =
     (case reserveSeats_try db eventId partnerId seatsN rid now of
        (Inr reservationId, w) \<Rightarrow> (Inr reservationId, commitTransaction db w)
      | (Inl e, w) \<Rightarrow> (Inl e, abortTransaction db w))"

definition cancelReservation_after_read ::
  "database \<Rightarrow> IReservation \<Rightarrow> IEvent \<Rightarrow> string \<Rightarrow> nat \<Rightarrow> (error + unit) \<times> database" where
  "cancelReservation_after_read w reservation event reservationId now =
     (case cancel w reservationId now of
        (changed, w1) \<Rightarrow>
          (case updateSeatsWithVersion w1 (r_event_id reservation) (seats reservation)
                  (version event) now of
             (updated, w2) \<Rightarrow>
               if \<not> updated then (Inl CONCURRENT_UPDATE_DETECTED, w2)
               else (Inr (), w2)))"

definition cancelReservation_try ::
  "database \<Rightarrow> string \<Rightarrow> nat \<Rightarrow> (error + unit) \<times> database" where
  "cancelReservation_try w reservationId now =
     (case findConfirmedById w reservationId of
        None \<Rightarrow> (Inl RESERVATION_NOT_FOUND, w)
      | Some reservation \<Rightarrow>
          (case findById w (r_event_id reservation) of
             None \<Rightarrow> (Inl EVENT_NOT_FOUND, w)
           | Some event \<Rightarrow> cancelReservation_after_read w reservation event reservationId now))"

definition cancelReservation ::
  "database \<Rightarrow> string \<Rightarrow> nat \<Rightarrow> (error + unit) \<times> database" where
  "cancelReservation db reservationId now =
     (case cancelReservation_try db reservationId now of
        (Inr u, w) \<Rightarrow> (Inr u, commitTransaction db w)
      | (Inl e, w) \<Rightarrow> (Inl e, abortTransaction db w))"

record EventSummary =
  s_eventId :: string
  s_name :: string
  s_totalSeats :: int
  s_availableSeats :: int
  s_reservationCount :: nat
  s_version :: int

definition getEventSummary :: "database \<Rightarrow> string \<Rightarrow> EventSummary option" where
  "getEventSummary db eventId =
     (case findById db eventId of
        None \<Rightarrow> None
      | Some event \<Rightarrow>
          Some \<lparr>s_eventId = event_id event, s_name = name event,
                s_totalSeats = total_seats event, s_availableSeats = available_seats event,
                s_reservationCount = getReservationCount db eventId,
                s_version = version event\<rparr>)"

record ReservationView =
  v_reservationId :: string
  v_partnerId :: string
  v_seats :: int
  v_status :: ReservationStatus
  v_createdAt :: nat

definition view :: "IReservation \<Rightarrow> ReservationView" where
  "view r = \<lparr>v_reservationId = reservation_id r, v_partnerId = partner_id r,
             v_seats = seats r, v_status = status r, v_createdAt = r_created_at r\<rparr>"

text \<open>\<open>find({event_id}).sort({created_at: -1})\<close>: descending creation time; documents with
  equal creation time keep their collection order.\<close>

definition getAllReservations :: "database \<Rightarrow> string \<Rightarrow> ReservationView list" where
  "getAllReservations db eventId =
     map view
       (sort_key (\<lambda>r. - int (r_created_at r))
          (filter (\<lambda>r. r_event_id r = eventId) (reservations db)))"

section \<open>Seeding (db/database.ts)\<close>

definition seedData :: "database \<Rightarrow> nat \<Rightarrow> database" where
  "seedData db now =
     (case find (\<lambda>e. event_id e = ''node-meetup-2025'') (events db) of
        None \<Rightarrow>
          db\<lparr>events := events db @
                [\<lparr>event_id = ''node-meetup-2025'', name = ''Node.js Meet-up'',
                  total_seats = 500, available_seats = 500, version = 0,
                  created_at = now, updated_at = now\<rparr>]\<rparr>
      | Some existingEvent \<Rightarrow> db)"

definition empty_database :: database where
  "empty_database = \<lparr>events = [], reservations = []\<rparr>"

section \<open>The four engine operations as requests\<close>

datatype operation =
    Reserve string string int string nat
  | Cancel string nat
  | Summarize string
  | ListAll string

datatype response =
    Reserved string
  | CancelledOk
  | Summary "EventSummary option"
  | Listing "ReservationView list"
  | Failed error

fun run :: "database \<Rightarrow> operation \<Rightarrow> response \<times> database" where
  "run db (Reserve eventId partnerId seatsN rid now) =
     (case reserveSeats db eventId partnerId seatsN rid now of
        (Inr reservationId, db') \<Rightarrow> (Reserved reservationId, db')
      | (Inl e, db') \<Rightarrow> (Failed e, db'))"
| "run db (Cancel reservationId now) =
     (case cancelReservation db reservationId now of
        (Inr u, db') \<Rightarrow> (CancelledOk, db')
      | (Inl e, db') \<Rightarrow> (Failed e, db'))"
| "run db (Summarize eventId) = (Summary (getEventSummary db eventId), db)"
| "run db (ListAll eventId) = (Listing (getAllReservations db eventId), db)"

fun run_all :: "database \<Rightarrow> operation list \<Rightarrow> database" where
  "run_all db [] = db"
| "run_all db (op # ops) = run_all (snd (run db op)) ops"

text \<open>The engine's contract on its arguments: a reservation asks for at least
  \<open>MIN_SEATS_PER_RESERVATION = 1\<close> seat.\<close>

fun valid_operation :: "operation \<Rightarrow> bool" where
  "valid_operation (Reserve eventId partnerId seatsN rid now) = (1 \<le> seatsN)"
| "valid_operation _ = True"

definition confirmed_units :: "database \<Rightarrow> string \<Rightarrow> int" where
  "confirmed_units db eventId =
     sum_list (map seats
       (filter (\<lambda>r. r_event_id r = eventId \<and> status r = Confirmed) (reservations db)))"

text \<open>The pool invariant of the specification, for every stored event.\<close>

definition ledger_consistent :: "database \<Rightarrow> bool" where
  "ledger_consistent db \<longleftrightarrow>
     (\<forall>e\<in>set (events db).
        0 \<le> available_seats e \<and> available_seats e \<le> total_seats e \<and>
        available_seats e = total_seats e - confirmed_units db (event_id e))"

text \<open>What the unique indexes of the two schemas guarantee, together with the facts the
  engine maintains about its own ledger.\<close>

definition well_formed :: "database \<Rightarrow> bool" where
  "well_formed db \<longleftrightarrow>
     distinct (map event_id (events db)) \<and>
     distinct (map reservation_id (reservations db)) \<and>
     (\<forall>r\<in>set (reservations db). status r = Confirmed \<longrightarrow> 0 \<le> seats r) \<and>
     (\<forall>e\<in>set (events db).
        0 \<le> available_seats e \<and>
        available_seats e = total_seats e - confirmed_units db (event_id e))"


section \<open>Sample states\<close>

text \<open>The seeded pool after \<open>reserve("a", 5)\<close> at time 1, as the scenario of the
  specification has it, and variations of that store.\<close>

definition pool_v1 :: IEvent where
  "pool_v1 = \<lparr>event_id = ''node-meetup-2025'', name = ''Node.js Meet-up'',
              total_seats = 500, available_seats = 495, version = 1,
              created_at = 0, updated_at = 1\<rparr>"

definition res_a :: IReservation where
  "res_a = \<lparr>reservation_id = ''idA'', r_event_id = ''node-meetup-2025'', partner_id = ''a'',
             seats = 5, status = Confirmed, r_created_at = 1, cancelled_at = None\<rparr>"

definition db_a :: database where
  "db_a = \<lparr>events = [pool_v1], reservations = [res_a]\<rparr>"

text \<open>The same store after another writer has moved the pool to version 2.\<close>

definition db_moved :: database where
  "db_moved = \<lparr>events = [pool_v1\<lparr>available_seats := 492, version := 2, updated_at := 2\<rparr>],
               reservations = [res_a]\<rparr>"

text \<open>The same store without the pool record.\<close>

definition db_gone :: database where
  "db_gone = \<lparr>events = [], reservations = [res_a]\<rparr>"

text \<open>The same store with reservation \<open>idA\<close> already cancelled at time 3.\<close>

definition db_a_cancelled :: database where
  "db_a_cancelled =
     \<lparr>events = [pool_v1],
      reservations = [res_a\<lparr>status := Cancelled, cancelled_at := Some 3\<rparr>]\<rparr>"


text \<open>The scenario of the specification: two reservations, one cancellation, then the
  two reads.\<close>

definition scenario :: "operation list" where
  "scenario =
     [Reserve ''node-meetup-2025'' ''a'' 5 ''idA'' 1,
      Reserve ''node-meetup-2025'' ''b'' 3 ''idB'' 2,
      Cancel ''idA'' 3,
      Summarize ''node-meetup-2025'',
      ListAll ''node-meetup-2025'']"

section \<open>Lists and the update primitive\<close>

lemma find_split:
  "find P xs = Some e \<Longrightarrow> \<exists>pre suf. xs = pre @ e # suf \<and> (\<forall>x\<in>set pre. \<not> P x) \<and> P e"
proof (induction xs)
  case Nil
  then show ?case by simp
next
  case (Cons d ds)
  show ?case
  proof (cases "P d")
    case True
    with Cons.prems show ?thesis by (intro exI[of _ "[]"] exI[of _ ds]) simp
  next
    case False
    with Cons.prems have "find P ds = Some e" by simp
    from Cons.IH[OF this] obtain pre suf where "ds = pre @ e # suf" "\<forall>x\<in>set pre. \<not> P x" "P e"
      by blast
    with False show ?thesis by (intro exI[of _ "d # pre"] exI[of _ suf]) simp
  qed
qed

lemma find_first_split:
  "\<forall>x\<in>set pre. \<not> P x \<Longrightarrow> P e \<Longrightarrow> find P (pre @ e # suf) = Some e"
  by (induction pre) auto

lemma find_unique_split:
  assumes "distinct (map event_id es)" "es = pre @ e # suf"
  shows "\<forall>x\<in>set pre \<union> set suf. event_id x \<noteq> event_id e"
  using assms by (auto simp: image_iff)

lemma updateOne_no_match:
  "\<forall>x\<in>set xs. \<not> q x \<Longrightarrow> updateOne q u xs = (0, xs)"
  by (induction xs) auto

lemma updateOne_find_None: "find q xs = None \<Longrightarrow> updateOne q u xs = (0, xs)"
  by (rule updateOne_no_match) (simp add: find_None_iff)

lemma updateOne_split:
  "\<forall>x\<in>set pre. \<not> q x \<Longrightarrow> q e \<Longrightarrow>
   updateOne q u (pre @ e # suf) = ((if u e = e then 0 else 1), pre @ u e # suf)"
  by (induction pre) auto

lemma updateOne_find_Some:
  "find q xs = Some e \<Longrightarrow>
   \<exists>pre suf. xs = pre @ e # suf \<and> (\<forall>x\<in>set pre. \<not> q x) \<and> q e \<and>
     updateOne q u xs = ((if u e = e then 0 else 1), pre @ u e # suf)"
proof (induction xs)
  case Nil
  then show ?case by simp
next
  case (Cons d ds)
  show ?case
  proof (cases "q d")
    case True
    with Cons.prems have "d = e" by simp
    with True show ?thesis by (intro exI[of _ "[]"] exI[of _ ds]) simp
  next
    case False
    with Cons.prems have "find q ds = Some e" by simp
    from Cons.IH[OF this] obtain pre suf where
      h: "ds = pre @ e # suf" "\<forall>x\<in>set pre. \<not> q x" "q e"
         "updateOne q u ds = ((if u e = e then 0 else 1), pre @ u e # suf)" by blast
    with False show ?thesis
      by (intro exI[of _ "d # pre"] exI[of _ suf]) simp
  qed
qed

section \<open>The conditional adjust\<close>

lemma bumped_differs:
  "e\<lparr>available_seats := a, version := version e + 1, updated_at := t\<rparr> \<noteq> (e::IEvent)"
proof
  assume "e\<lparr>available_seats := a, version := version e + 1, updated_at := t\<rparr> = e"
  then have "version (e\<lparr>available_seats := a, version := version e + 1, updated_at := t\<rparr>) = version e"
    by simp
  then show False by simp
qed

lemma updateSeatsWithVersion_absent:
  "findById db eid = None \<Longrightarrow> updateSeatsWithVersion db eid delta v now = (False, db)"
proof -
  assume "findById db eid = None"
  then have "\<forall>x\<in>set (events db). \<not> (event_id x = eid \<and> version x = v \<and> available_seats x + delta \<ge> 0)"
    by (auto simp: findById_def find_None_iff)
  from updateOne_no_match[OF this] show ?thesis
    by (simp add: updateSeatsWithVersion_def)
qed

lemma updateSeatsWithVersion_stale:
  "\<forall>e\<in>set (events db). event_id e = eid \<longrightarrow> version e \<noteq> v \<Longrightarrow>
   updateSeatsWithVersion db eid delta v now = (False, db)"
proof -
  assume "\<forall>e\<in>set (events db). event_id e = eid \<longrightarrow> version e \<noteq> v"
  then have "\<forall>x\<in>set (events db). \<not> (event_id x = eid \<and> version x = v \<and> available_seats x + delta \<ge> 0)"
    by auto
  from updateOne_no_match[OF this] show ?thesis
    by (simp add: updateSeatsWithVersion_def)
qed

lemma updateSeatsWithVersion_cases:
  "(\<exists>pre e suf. events db = pre @ e # suf
      \<and> (\<forall>x\<in>set pre. \<not> (event_id x = eid \<and> version x = v \<and> 0 \<le> available_seats x + delta))
      \<and> event_id e = eid \<and> version e = v \<and> 0 \<le> available_seats e + delta
      \<and> updateSeatsWithVersion db eid delta v now =
          (True, db\<lparr>events := pre @ e\<lparr>available_seats := available_seats e + delta, version := version e + 1, updated_at := now\<rparr> # suf\<rparr>))
   \<or> ((\<forall>x\<in>set (events db). \<not> (event_id x = eid \<and> version x = v \<and> 0 \<le> available_seats x + delta))
      \<and> updateSeatsWithVersion db eid delta v now = (False, db))"
proof (cases "find (\<lambda>e. event_id e = eid \<and> version e = v \<and> available_seats e + delta \<ge> 0) (events db)")
  case None
  then have "\<forall>x\<in>set (events db). \<not> (event_id x = eid \<and> version x = v \<and> 0 \<le> available_seats x + delta)"
    by (simp add: find_None_iff)
  moreover from updateOne_find_None[OF None] have "updateSeatsWithVersion db eid delta v now = (False, db)"
    by (simp add: updateSeatsWithVersion_def)
  ultimately show ?thesis by blast
next
  case (Some e)
  let ?u = "(\<lambda>e. e\<lparr>available_seats := available_seats e + delta, version := version e + 1, updated_at := now\<rparr>)"
  from updateOne_find_Some[OF Some, of ?u] obtain pre suf where
    h: "events db = pre @ e # suf"
       "\<forall>x\<in>set pre. \<not> (event_id x = eid \<and> version x = v \<and> 0 \<le> available_seats x + delta)"
       "event_id e = eid \<and> version e = v \<and> 0 \<le> available_seats e + delta"
       "updateOne (\<lambda>e. event_id e = eid \<and> version e = v \<and> available_seats e + delta \<ge> 0) ?u (events db)
          = ((if ?u e = e then 0 else 1), pre @ ?u e # suf)" by blast
  have ne: "?u e \<noteq> e"
  proof
    assume "?u e = e"
    then have "version (?u e) = version e" by simp
    then show False by simp
  qed
  from h(4) ne have "updateSeatsWithVersion db eid delta v now = (True, db\<lparr>events := pre @ ?u e # suf\<rparr>)"
    by (simp add: updateSeatsWithVersion_def)
  with h(1,2,3) show ?thesis by blast
qed

lemma updateSeatsWithVersion_first:
  assumes "events db = pre @ e # suf" "\<forall>x\<in>set pre. event_id x \<noteq> eid" "event_id e = eid"
    "version e = v" "0 \<le> available_seats e + delta"
  shows "updateSeatsWithVersion db eid delta v now =
     (True, db\<lparr>events := pre @ e\<lparr>available_seats := available_seats e + delta,
                    version := version e + 1, updated_at := now\<rparr> # suf\<rparr>)"
proof -
  have "updateOne (\<lambda>x. event_id x = eid \<and> version x = v \<and> available_seats x + delta \<ge> 0)
      (\<lambda>e. e\<lparr>available_seats := available_seats e + delta, version := version e + 1, updated_at := now\<rparr>)
      (pre @ e # suf) =
      ((if e\<lparr>available_seats := available_seats e + delta, version := version e + 1, updated_at := now\<rparr> = e
        then 0 else 1),
       pre @ e\<lparr>available_seats := available_seats e + delta, version := version e + 1, updated_at := now\<rparr> # suf)"
    using assms by (intro updateOne_split) auto
  then show ?thesis using assms(1)
    by (simp add: updateSeatsWithVersion_def bumped_differs)
qed

lemma findById_first:
  "events db = pre @ e # suf \<Longrightarrow> \<forall>x\<in>set pre. event_id x \<noteq> eid \<Longrightarrow> event_id e = eid \<Longrightarrow>
   findById db eid = Some e"
  by (simp add: findById_def find_first_split)

lemma events_cancel: "events (snd (cancel w i now)) = events w"
  by (simp add: cancel_def split: prod.splits)

lemma findById_cancel: "findById (snd (cancel w i now)) eid = findById w eid"
  by (simp add: findById_def events_cancel)

lemma cancel_first:
  assumes "reservations db = rpre @ r # rsuf" "\<forall>x\<in>set rpre. reservation_id x \<noteq> i"
    "reservation_id r = i" "status r = Confirmed"
  shows "cancel db i now =
     (True, db\<lparr>reservations := rpre @ r\<lparr>status := Cancelled, cancelled_at := Some now\<rparr> # rsuf\<rparr>)"
proof -
  have ne: "r\<lparr>status := Cancelled, cancelled_at := Some now\<rparr> \<noteq> r"
  proof
    assume "r\<lparr>status := Cancelled, cancelled_at := Some now\<rparr> = r"
    then have "status (r\<lparr>status := Cancelled, cancelled_at := Some now\<rparr>) = status r" by simp
    with assms(4) show False by simp
  qed
  have "updateOne (\<lambda>x. reservation_id x = i) (\<lambda>r. r\<lparr>status := Cancelled, cancelled_at := Some now\<rparr>)
      (rpre @ r # rsuf) =
      ((if r\<lparr>status := Cancelled, cancelled_at := Some now\<rparr> = r then 0 else 1),
       rpre @ r\<lparr>status := Cancelled, cancelled_at := Some now\<rparr> # rsuf)"
    using assms by (intro updateOne_split) auto
  with ne assms(1) show ?thesis by (simp add: cancel_def)
qed

section \<open>Runs of reserve and cancel\<close>



lemma reserveSeats_success:
  assumes "reserveSeats db eid pid n rid now = (Inr i, db')"
  shows "\<exists>e pre suf. events db = pre @ e # suf \<and> (\<forall>x\<in>set pre. event_id x \<noteq> eid) \<and>
           event_id e = eid \<and> n \<le> available_seats e \<and> i = rid \<and>
           rid \<notin> reservation_id ` set (reservations db) \<and>
           db' = db\<lparr>events := pre @ e\<lparr>available_seats := available_seats e - n,
                        version := version e + 1, updated_at := now\<rparr> # suf,
                     reservations := reservations db @
                       [\<lparr>reservation_id = rid, r_event_id = eid, partner_id = pid, seats = n,
                         status = Confirmed, r_created_at = now, cancelled_at = None\<rparr>]\<rparr>"
proof -
  from assms obtain e where f: "findById db eid = Some e"
    by (auto simp: reserveSeats_def reserveSeats_try_def abortTransaction_def
        split: option.splits prod.splits sum.splits)
  from find_split[OF f[unfolded findById_def]] obtain pre suf where
    sp: "events db = pre @ e # suf" "\<forall>x\<in>set pre. event_id x \<noteq> eid" "event_id e = eid" by blast
  from assms f have enough: "n \<le> available_seats e"
    by (auto simp: reserveSeats_def reserveSeats_try_def reserveSeats_after_read_def
        abortTransaction_def split: if_splits)
  let ?e1 = "e\<lparr>available_seats := available_seats e + - n, version := version e + 1, updated_at := now\<rparr>"
  have ne: "?e1 \<noteq> e"
  proof
    assume "?e1 = e"
    then have "version ?e1 = version e" by simp
    then show False by simp
  qed
  have "updateOne (\<lambda>x. event_id x = eid \<and> version x = version e \<and> available_seats x + - n \<ge> 0)
      (\<lambda>e. e\<lparr>available_seats := available_seats e + - n, version := version e + 1, updated_at := now\<rparr>)
      (pre @ e # suf) = ((if ?e1 = e then 0 else 1), pre @ ?e1 # suf)"
    using sp enough by (intro updateOne_split) auto
  with ne sp have upd: "updateSeatsWithVersion db eid (- n) (version e) now =
      (True, db\<lparr>events := pre @ ?e1 # suf\<rparr>)"
    by (simp add: updateSeatsWithVersion_def)
  from assms f enough upd have "i = rid \<and> rid \<notin> reservation_id ` set (reservations db) \<and>
     db' = db\<lparr>events := pre @ ?e1 # suf,
                     reservations := reservations db @
                       [\<lparr>reservation_id = rid, r_event_id = eid, partner_id = pid, seats = n,
                         status = Confirmed, r_created_at = now, cancelled_at = None\<rparr>]\<rparr>"
    by (auto simp: reserveSeats_def reserveSeats_try_def reserveSeats_after_read_def create_def
        abortTransaction_def commitTransaction_def Let_def split: if_splits)
  with sp enough show ?thesis by auto
qed

lemma reserveSeats_failure:
  "reserveSeats db eid pid n rid now = (Inl err, db') \<Longrightarrow> db' = db"
  by (auto simp: reserveSeats_def abortTransaction_def split: prod.splits sum.splits)

lemma cancelReservation_run:
  assumes "reservations db = rpre @ r # rsuf" "\<forall>x\<in>set rpre. reservation_id x \<noteq> i"
    "reservation_id r = i" "status r = Confirmed"
    "events db = pre @ e # suf" "\<forall>x\<in>set pre. event_id x \<noteq> r_event_id r"
    "event_id e = r_event_id r" "0 \<le> available_seats e + seats r"
  shows "cancelReservation db i now =
     (Inr (),
      db\<lparr>events := pre @ e\<lparr>available_seats := available_seats e + seats r,
                        version := version e + 1, updated_at := now\<rparr> # suf,
         reservations := rpre @ r\<lparr>status := Cancelled, cancelled_at := Some now\<rparr> # rsuf\<rparr>)"
proof -
  have fc: "findConfirmedById db i = Some r"
    using assms(1-4) by (simp add: findConfirmedById_def find_first_split)
  have f: "findById db (r_event_id r) = Some e" using assms(5-7) by (rule findById_first)
  have c: "cancel db i now =
     (True, db\<lparr>reservations := rpre @ r\<lparr>status := Cancelled, cancelled_at := Some now\<rparr> # rsuf\<rparr>)"
    using assms(1-4) by (rule cancel_first)
  have u: "updateSeatsWithVersion
      (db\<lparr>reservations := rpre @ r\<lparr>status := Cancelled, cancelled_at := Some now\<rparr> # rsuf\<rparr>)
      (r_event_id r) (seats r) (version e) now =
     (True, db\<lparr>reservations := rpre @ r\<lparr>status := Cancelled, cancelled_at := Some now\<rparr> # rsuf\<rparr>
              \<lparr>events := pre @ e\<lparr>available_seats := available_seats e + seats r,
                    version := version e + 1, updated_at := now\<rparr> # suf\<rparr>)"
    using assms(5-8) by (intro updateSeatsWithVersion_first) auto
  show ?thesis
    by (simp add: cancelReservation_def cancelReservation_try_def cancelReservation_after_read_def
        fc f c u commitTransaction_def)
qed

section \<open>The invariant is preserved\<close>

lemma well_formed_consistent: "well_formed db \<Longrightarrow> ledger_consistent db"
proof -
  assume wf: "well_formed db"
  have nonneg: "0 \<le> confirmed_units db eid" for eid
    unfolding confirmed_units_def using wf
    by (intro sum_list_nonneg) (auto simp: well_formed_def)
  show ?thesis
    unfolding ledger_consistent_def
  proof
    fix e assume "e \<in> set (events db)"
    with wf have "0 \<le> available_seats e"
      "available_seats e = total_seats e - confirmed_units db (event_id e)"
      by (auto simp: well_formed_def)
    with nonneg[of "event_id e"] show "0 \<le> available_seats e \<and> available_seats e \<le> total_seats e \<and>
        available_seats e = total_seats e - confirmed_units db (event_id e)" by simp
  qed
qed

lemma well_formed_seeded: "well_formed (seedData empty_database t0)"
  by (simp add: well_formed_def seedData_def empty_database_def confirmed_units_def)

lemma well_formed_step:
  assumes wf: "well_formed db"
    and ev: "events db = pre @ e # suf" "events db' = pre @ e' # suf"
    and e': "event_id e' = event_id e" "total_seats e' = total_seats e"
            "available_seats e' = available_seats e - d" "0 \<le> available_seats e'"
    and cu: "\<And>x. confirmed_units db' x = confirmed_units db x + (if x = event_id e then d else 0)"
    and ids: "distinct (map reservation_id (reservations db'))"
    and pos: "\<forall>r\<in>set (reservations db'). status r = Confirmed \<longrightarrow> 0 \<le> seats r"
  shows "well_formed db'"
proof -
  from wf ev(1) have de: "distinct (map event_id (pre @ e # suf))" by (simp add: well_formed_def)
  from find_unique_split[OF de refl]
  have others: "\<forall>x\<in>set pre \<union> set suf. event_id x \<noteq> event_id e" .
  from wf have inv: "\<forall>x\<in>set (pre @ e # suf). 0 \<le> available_seats x \<and>
        available_seats x = total_seats x - confirmed_units db (event_id x)"
    unfolding well_formed_def ev(1) by blast
  have "\<forall>x\<in>set (pre @ e' # suf). 0 \<le> available_seats x \<and>
        available_seats x = total_seats x - confirmed_units db' (event_id x)"
  proof
    fix x assume "x \<in> set (pre @ e' # suf)"
    then consider "x = e'" | "x \<in> set pre \<union> set suf" by auto
    then show "0 \<le> available_seats x \<and>
        available_seats x = total_seats x - confirmed_units db' (event_id x)"
    proof cases
      case 1
      from inv have "available_seats e = total_seats e - confirmed_units db (event_id e)" by simp
      moreover have "confirmed_units db' (event_id e) = confirmed_units db (event_id e) + d"
        by (simp add: cu)
      ultimately show ?thesis using 1 e' by simp
    next
      case 2
      with others have ne: "event_id x \<noteq> event_id e" by blast
      from 2 have "x \<in> set (pre @ e # suf)" by auto
      with inv have a: "0 \<le> available_seats x"
        "available_seats x = total_seats x - confirmed_units db (event_id x)" by blast+
      from ne have "confirmed_units db' (event_id x) = confirmed_units db (event_id x)"
        by (simp add: cu)
      with a show ?thesis by simp
    qed
  qed
  moreover have "distinct (map event_id (events db'))" using de e'(1) by (simp add: ev(2))
  ultimately show ?thesis using ids pos unfolding well_formed_def ev(2) by blast
qed

lemma well_formed_reserveSeats:
  assumes wf: "well_formed db" and n: "1 \<le> n"
  shows "well_formed (snd (reserveSeats db eid pid n rid now))"
proof (cases "reserveSeats db eid pid n rid now")
  case (Pair res db')
  show ?thesis
  proof (cases res)
    case (Inl err)
    with Pair have "db' = db" by (auto dest: reserveSeats_failure)
    with Pair wf show ?thesis by simp
  next
    case (Inr i)
    from reserveSeats_success[OF Pair[unfolded Inr]] obtain e pre suf where
      h: "events db = pre @ e # suf" "event_id e = eid"
         "n \<le> available_seats e" "rid \<notin> reservation_id ` set (reservations db)"
         "db' = db\<lparr>events := pre @ e\<lparr>available_seats := available_seats e - n,
                        version := version e + 1, updated_at := now\<rparr> # suf,
                     reservations := reservations db @
                       [\<lparr>reservation_id = rid, r_event_id = eid, partner_id = pid, seats = n,
                         status = Confirmed, r_created_at = now, cancelled_at = None\<rparr>]\<rparr>"
      by blast
    have ev': "events db' = pre @ e\<lparr>available_seats := available_seats e - n,
                        version := version e + 1, updated_at := now\<rparr> # suf"
      and rs': "reservations db' = reservations db @
                       [\<lparr>reservation_id = rid, r_event_id = eid, partner_id = pid, seats = n,
                         status = Confirmed, r_created_at = now, cancelled_at = None\<rparr>]"
      by (simp_all add: h(5))
    have "well_formed db'"
    proof (rule well_formed_step[OF wf h(1) ev', where d = n])
      show "\<And>x. confirmed_units db' x = confirmed_units db x + (if x = event_id e then n else 0)"
        by (simp add: confirmed_units_def rs' h(2))
      show "distinct (map reservation_id (reservations db'))"
        using wf h(4) by (simp add: rs' well_formed_def)
      show "\<forall>r\<in>set (reservations db'). status r = Confirmed \<longrightarrow> 0 \<le> seats r"
        using wf n by (auto simp: rs' well_formed_def)
    qed (use h(3) in simp_all)
    with Pair show ?thesis by simp
  qed
qed

lemma well_formed_cancelReservation:
  assumes wf: "well_formed db"
  shows "well_formed (snd (cancelReservation db i now))"
proof (cases "findConfirmedById db i")
  case None
  then show ?thesis using wf
    by (simp add: cancelReservation_def cancelReservation_try_def abortTransaction_def)
next
  case (Some r)
  show ?thesis
  proof (cases "findById db (r_event_id r)")
    case None
    with Some show ?thesis using wf
      by (simp add: cancelReservation_def cancelReservation_try_def abortTransaction_def)
  next
    case (Some e)
    from find_split[OF \<open>findConfirmedById db i = Some r\<close>[unfolded findConfirmedById_def]]
    obtain rpre rsuf where
      rs: "reservations db = rpre @ r # rsuf" "reservation_id r = i" "status r = Confirmed" by blast
    from wf rs(1) have dr: "distinct (map reservation_id (rpre @ r # rsuf))"
      by (simp add: well_formed_def)
    then have rpre: "\<forall>x\<in>set rpre. reservation_id x \<noteq> i" using rs(2) by (auto simp: image_iff)
    from find_split[OF Some[unfolded findById_def]] obtain pre suf where
      es: "events db = pre @ e # suf" "\<forall>x\<in>set pre. event_id x \<noteq> r_event_id r"
          "event_id e = r_event_id r" by blast
    from wf rs have seats_r: "0 \<le> seats r" by (auto simp: well_formed_def)
    from wf have "\<forall>x\<in>set (pre @ e # suf). 0 \<le> available_seats x"
      unfolding well_formed_def es(1) by blast
    then have avail: "0 \<le> available_seats e" by simp
    define db' where "db' = db\<lparr>events := pre @ e\<lparr>available_seats := available_seats e + seats r,
                        version := version e + 1, updated_at := now\<rparr> # suf,
         reservations := rpre @ r\<lparr>status := Cancelled, cancelled_at := Some now\<rparr> # rsuf\<rparr>"
    have ev': "events db' = pre @ e\<lparr>available_seats := available_seats e + seats r,
                        version := version e + 1, updated_at := now\<rparr> # suf"
      and rs': "reservations db' = rpre @ r\<lparr>status := Cancelled, cancelled_at := Some now\<rparr> # rsuf"
      by (simp_all add: db'_def)
    have run: "cancelReservation db i now = (Inr (), db')"
      unfolding db'_def using rs(1) rpre rs(2,3) es avail seats_r
      by (intro cancelReservation_run) auto
    have "well_formed db'"
    proof (rule well_formed_step[OF wf es(1) ev', where d = "- seats r"])
      show "\<And>x. confirmed_units db' x =
          confirmed_units db x + (if x = event_id e then - seats r else 0)"
        by (simp add: confirmed_units_def rs' rs(1,3) es(3))
      show "distinct (map reservation_id (reservations db'))" using dr by (simp add: rs')
      show "\<forall>x\<in>set (reservations db'). status x = Confirmed \<longrightarrow> 0 \<le> seats x"
        using wf rs(1) by (auto simp: rs' well_formed_def)
    qed (use avail seats_r in simp_all)
    with run show ?thesis by simp
  qed
qed

lemma snd_run_Reserve:
  "snd (run db (Reserve eid pid n rid now)) = snd (reserveSeats db eid pid n rid now)"
  by (simp split: prod.splits sum.splits)

lemma snd_run_Cancel: "snd (run db (Cancel i now)) = snd (cancelReservation db i now)"
  by (simp split: prod.splits sum.splits)

lemma well_formed_run:
  "well_formed db \<Longrightarrow> valid_operation op \<Longrightarrow> well_formed (snd (run db op))"
proof (cases op)
  case (Reserve eid pid n rid now)
  assume "well_formed db" "valid_operation op"
  with Reserve show ?thesis
    by (simp only: snd_run_Reserve) (simp add: well_formed_reserveSeats)
next
  case (Cancel i now)
  assume "well_formed db"
  with Cancel show ?thesis
    by (simp only: snd_run_Cancel) (simp add: well_formed_cancelReservation)
qed simp_all

lemma well_formed_run_all:
  "well_formed db \<Longrightarrow> list_all valid_operation ops \<Longrightarrow> well_formed (run_all db ops)"
  by (induction ops arbitrary: db) (simp_all add: well_formed_run)

section \<open>A cancel that lost the race for its reservation\<close>



text \<open>In a run without interference \<open>cancel\<close> always reports a change once a
  confirmed reservation has been found: it can report none only on a store that has moved
  on since the read.\<close>

lemma cancel_changes_when_isolated:
  assumes "well_formed w" "findConfirmedById w i = Some r"
  shows "fst (cancel w i now)"
proof -
  from find_split[OF assms(2)[unfolded findConfirmedById_def]] obtain rpre rsuf where
    rs: "reservations w = rpre @ r # rsuf" "reservation_id r = i" "status r = Confirmed" by blast
  from assms(1) rs(1) have "distinct (map reservation_id (rpre @ r # rsuf))"
    by (simp add: well_formed_def)
  then have "\<forall>x\<in>set rpre. reservation_id x \<noteq> i" using rs(2) by (auto simp: image_iff)
  from cancel_first[OF rs(1) this rs(2,3)] show ?thesis by simp
qed







section \<open>The claims\<close>

text \<open>
  Claim C1. Starting from the seeded store, every sequence of reserve, cancel, summarize
  and list operations whose reservations ask for at least one seat ends in a store where
  each pool satisfies \<open>0 \<le> available \<le> capacity\<close> and
  \<open>available = capacity - \<Sum>(seats of the confirmed reservations of that pool)\<close>.
\<close>

theorem pool_invariant:
  "list_all valid_operation ops \<Longrightarrow> ledger_consistent (run_all (seedData empty_database t0) ops)"
  by (intro well_formed_consistent well_formed_run_all well_formed_seeded)

text \<open>The theorem at concrete stores.\<close>

theorem pool_invariant_witness:
  "list_all valid_operation scenario \<and>
   ledger_consistent (run_all (seedData empty_database 0) scenario) \<and>
   getEventSummary (run_all (seedData empty_database 0) scenario) ''node-meetup-2025'' =
     Some \<lparr>s_eventId = ''node-meetup-2025'', s_name = ''Node.js Meet-up'', s_totalSeats = 500,
            s_availableSeats = 497, s_reservationCount = 1, s_version = 3\<rparr>"
proof -
  have v: "list_all valid_operation scenario" by (simp add: scenario_def)
  have s: "getEventSummary (run_all (seedData empty_database 0) scenario) ''node-meetup-2025'' =
     Some \<lparr>s_eventId = ''node-meetup-2025'', s_name = ''Node.js Meet-up'', s_totalSeats = 500,
            s_availableSeats = 497, s_reservationCount = 1, s_version = 3\<rparr>"
    by code_simp
  from pool_invariant[OF v, of 0] v s show ?thesis by blast
qed

text \<open>
  Claim C2. (as amended) For every delta and every expected version, on a store with
  unique event ids that holds the pool, \<open>updateSeatsWithVersion\<close> adds the delta to
  \<open>available_seats\<close>, increments \<open>version\<close> and sets \<open>updated_at\<close> exactly when
  the stored version equals the expected one and the resulting count is at least zero; it
  then returns true. Otherwise it returns false and the store is unchanged. The resulting
  count is not compared with the capacity.
\<close>

theorem updateSeatsWithVersion_guards:
  assumes uniq: "distinct (map event_id (events db))"
    and found: "findById db eid = Some e"
  shows "updateSeatsWithVersion db eid delta v now =
     (if version e = v \<and> 0 \<le> available_seats e + delta
      then (True, db\<lparr>events := map (\<lambda>x. if event_id x = eid
                 then x\<lparr>available_seats := available_seats x + delta,
                        version := version x + 1, updated_at := now\<rparr>
                 else x) (events db)\<rparr>)
      else (False, db))"
proof -
  from found have e_in: "e \<in> set (events db)" and e_id: "event_id e = eid"
    by (auto simp: findById_def find_Some_iff)
  from updateSeatsWithVersion_cases[of db eid v delta now]
  show ?thesis
  proof (elim disjE exE conjE)
    fix pre e' suf
    assume h: "events db = pre @ e' # suf" "event_id e' = eid" "version e' = v"
      "0 \<le> available_seats e' + delta"
      "updateSeatsWithVersion db eid delta v now =
        (True, db\<lparr>events := pre @ e'\<lparr>available_seats := available_seats e' + delta,
            version := version e' + 1, updated_at := now\<rparr> # suf\<rparr>)"
    from find_unique_split[OF uniq h(1)] h(2)
    have others: "\<forall>x\<in>set pre \<union> set suf. event_id x \<noteq> eid" by simp
    then have "find (\<lambda>x. event_id x = eid) (pre @ e' # suf) = Some e'"
      using h(2) by (intro find_first_split) auto
    with found h(1) have "e = e'" by (simp add: findById_def)
    moreover from others h(2) have "map (\<lambda>x. if event_id x = eid
                 then x\<lparr>available_seats := available_seats x + delta,
                        version := version x + 1, updated_at := now\<rparr>
                 else x) (pre @ e' # suf) = pre @ e'\<lparr>available_seats := available_seats e' + delta,
            version := version e' + 1, updated_at := now\<rparr> # suf"
      by (simp add: map_idI)
    ultimately show ?thesis using h by simp
  next
    assume h: "\<forall>x\<in>set (events db). \<not> (event_id x = eid \<and> version x = v \<and> 0 \<le> available_seats x + delta)"
      "updateSeatsWithVersion db eid delta v now = (False, db)"
    from h(1) e_in e_id have "\<not> (version e = v \<and> 0 \<le> available_seats e + delta)" by blast
    with h(2) show ?thesis by simp
  qed
qed

text \<open>The theorem at concrete stores.\<close>

theorem updateSeatsWithVersion_guards_witness:
  "distinct (map event_id (events db_a)) \<and>
   findById db_a ''node-meetup-2025'' = Some pool_v1 \<and>
   updateSeatsWithVersion db_a ''node-meetup-2025'' (- 3) 1 2 = (True, db_moved) \<and>
   updateSeatsWithVersion db_a ''node-meetup-2025'' (- 3) 0 2 = (False, db_a) \<and>
   updateSeatsWithVersion db_a ''node-meetup-2025'' (- 496) 1 2 = (False, db_a)"
proof -
  have d: "distinct (map event_id (events db_a))" by (simp add: db_a_def)
  have f: "findById db_a ''node-meetup-2025'' = Some pool_v1" by code_simp
  have m: "db_a\<lparr>events := map (\<lambda>x. if event_id x = ''node-meetup-2025''
                 then x\<lparr>available_seats := available_seats x + (- 3),
                        version := version x + 1, updated_at := 2\<rparr>
                 else x) (events db_a)\<rparr> = db_moved"
    by (simp add: db_a_def db_moved_def pool_v1_def)
  have g: "version pool_v1 = 1" "available_seats pool_v1 = 495" by (simp_all add: pool_v1_def)
  from updateSeatsWithVersion_guards[OF d f, of "- 3" 1 2] m g
  have 1: "updateSeatsWithVersion db_a ''node-meetup-2025'' (- 3) 1 2 = (True, db_moved)"
    by simp
  from updateSeatsWithVersion_guards[OF d f, of "- 3" 0 2] g
  have 2: "updateSeatsWithVersion db_a ''node-meetup-2025'' (- 3) 0 2 = (False, db_a)"
    by simp
  from updateSeatsWithVersion_guards[OF d f, of "- 496" 1 2] g
  have 3: "updateSeatsWithVersion db_a ''node-meetup-2025'' (- 496) 1 2 = (False, db_a)"
    by simp
  from d f 1 2 3 show ?thesis by blast
qed

text \<open>
  Claim C2. (counterexample) On the seeded pool (capacity 500, 500 available, version 0)
  an adjust of \<open>+5\<close> at version 0 is written and returns true, leaving 505 available
  seats against a capacity of 500.
\<close>

theorem upper_bound_unchecked_counterexample:
  "updateSeatsWithVersion (seedData empty_database 0) ''node-meetup-2025'' 5 0 1 =
     (True, \<lparr>events = [\<lparr>event_id = ''node-meetup-2025'', name = ''Node.js Meet-up'',
                total_seats = 500, available_seats = 505, version = 1,
                created_at = 0, updated_at = 1\<rparr>],
             reservations = []\<rparr>)"
  by code_simp






text \<open>
  Claim C5. A reserve or cancel that fails with any error leaves the store, pool records
  and ledger, exactly as it was before the call, and the caller receives that one error.
\<close>

theorem failed_call_rolls_back:
  "(reserveSeats db eid pid n rid now = (Inl err, db') \<longrightarrow> db' = db) \<and>
   (cancelReservation db i now = (Inl err, db') \<longrightarrow> db' = db)"
  by (auto simp: reserveSeats_def cancelReservation_def abortTransaction_def
      split: prod.splits sum.splits)

text \<open>The theorem at concrete stores.\<close>

theorem failed_call_rolls_back_witness:
  "fst (reserveSeats db_a ''node-meetup-2025'' ''b'' 3 ''idA'' 2) = Inl DUPLICATE_KEY \<and>
   snd (reserveSeats_try db_a ''node-meetup-2025'' ''b'' 3 ''idA'' 2) = db_moved \<and>
   snd (reserveSeats db_a ''node-meetup-2025'' ''b'' 3 ''idA'' 2) = db_a \<and>
   fst (cancelReservation db_a ''idZ'' 3) = Inl RESERVATION_NOT_FOUND \<and>
   snd (cancelReservation db_a ''idZ'' 3) = db_a"
proof -
  have r: "fst (reserveSeats db_a ''node-meetup-2025'' ''b'' 3 ''idA'' 2) = Inl DUPLICATE_KEY"
    by code_simp
  have t: "snd (reserveSeats_try db_a ''node-meetup-2025'' ''b'' 3 ''idA'' 2) = db_moved"
    by code_simp
  have c: "fst (cancelReservation db_a ''idZ'' 3) = Inl RESERVATION_NOT_FOUND" by code_simp
  from r have r': "reserveSeats db_a ''node-meetup-2025'' ''b'' 3 ''idA'' 2 =
      (Inl DUPLICATE_KEY, snd (reserveSeats db_a ''node-meetup-2025'' ''b'' 3 ''idA'' 2))"
    by (simp add: prod_eq_iff)
  from c have c': "cancelReservation db_a ''idZ'' 3 =
      (Inl RESERVATION_NOT_FOUND, snd (cancelReservation db_a ''idZ'' 3))"
    by (simp add: prod_eq_iff)
  from failed_call_rolls_back[where db = db_a and eid = "''node-meetup-2025''" and pid = "''b''"
      and n = 3 and rid = "''idA''" and now = 2 and err = DUPLICATE_KEY
      and db' = "snd (reserveSeats db_a ''node-meetup-2025'' ''b'' 3 ''idA'' 2)"] r'
  have 1: "snd (reserveSeats db_a ''node-meetup-2025'' ''b'' 3 ''idA'' 2) = db_a" by blast
  from failed_call_rolls_back[where db = db_a and i = "''idZ''" and now = 3
      and err = RESERVATION_NOT_FOUND and db' = "snd (cancelReservation db_a ''idZ'' 3)"] c'
  have 2: "snd (cancelReservation db_a ''idZ'' 3) = db_a" by blast
  from r t 1 c 2 show ?thesis by blast
qed

text \<open>
  Claim C6. A conditional adjust that returns true has rewritten exactly one record of
  that pool, whose version was the expected one and is now one higher. When no stored
  record of the pool carries the expected version, the adjust returns false and the store
  is unchanged.
\<close>

theorem version_monotonicity:
  "(updateSeatsWithVersion db eid delta v now = (True, db') \<longrightarrow>
      (\<exists>pre e suf. events db = pre @ e # suf \<and> event_id e = eid \<and> version e = v \<and>
         db' = db\<lparr>events := pre @ e\<lparr>available_seats := available_seats e + delta,
                                     version := v + 1, updated_at := now\<rparr> # suf\<rparr>)) \<and>
   ((\<forall>e\<in>set (events db). event_id e = eid \<longrightarrow> version e \<noteq> v) \<longrightarrow>
      updateSeatsWithVersion db eid delta v now = (False, db))"
proof (intro conjI impI)
  assume a: "updateSeatsWithVersion db eid delta v now = (True, db')"
  from updateSeatsWithVersion_cases[of db eid v delta now] a
  show "\<exists>pre e suf. events db = pre @ e # suf \<and> event_id e = eid \<and> version e = v \<and>
         db' = db\<lparr>events := pre @ e\<lparr>available_seats := available_seats e + delta,
                                     version := v + 1, updated_at := now\<rparr> # suf\<rparr>"
    by auto
next
  assume "\<forall>e\<in>set (events db). event_id e = eid \<longrightarrow> version e \<noteq> v"
  then show "updateSeatsWithVersion db eid delta v now = (False, db)"
    by (rule updateSeatsWithVersion_stale)
qed

text \<open>The theorem at concrete stores.\<close>

theorem version_monotonicity_witness:
  "updateSeatsWithVersion db_a ''node-meetup-2025'' (- 3) 1 2 = (True, db_moved) \<and>
   (\<exists>pre e suf. events db_a = pre @ e # suf \<and> event_id e = ''node-meetup-2025'' \<and>
      version e = 1 \<and>
      db_moved = db_a\<lparr>events := pre @ e\<lparr>available_seats := available_seats e + (- 3),
                                   version := 1 + 1, updated_at := 2\<rparr> # suf\<rparr>) \<and>
   map version (events db_a) = [1] \<and>
   updateSeatsWithVersion db_a ''node-meetup-2025'' (- 3) 0 2 = (False, db_a)"
proof -
  have u: "updateSeatsWithVersion db_a ''node-meetup-2025'' (- 3) 1 2 = (True, db_moved)"
    by code_simp
  have m: "map version (events db_a) = [1]" by (simp add: db_a_def pool_v1_def)
  have s: "\<forall>e\<in>set (events db_a). event_id e = ''node-meetup-2025'' \<longrightarrow> version e \<noteq> 0"
    by (simp add: db_a_def pool_v1_def)
  from version_monotonicity[where db = db_a and eid = "''node-meetup-2025''" and delta = "- 3"
      and v = 1 and now = 2 and db' = db_moved] u
  have 1: "\<exists>pre e suf. events db_a = pre @ e # suf \<and> event_id e = ''node-meetup-2025'' \<and>
      version e = 1 \<and>
      db_moved = db_a\<lparr>events := pre @ e\<lparr>available_seats := available_seats e + (- 3),
                                   version := 1 + 1, updated_at := 2\<rparr> # suf\<rparr>" by blast
  from version_monotonicity[where db = db_a and eid = "''node-meetup-2025''" and delta = "- 3"
      and v = 0 and now = 2] s
  have 2: "updateSeatsWithVersion db_a ''node-meetup-2025'' (- 3) 0 2 = (False, db_a)" by blast
  from u 1 m 2 show ?thesis by blast
qed

text \<open>
  Claim C7. After a successful reserve of \<open>n \<ge> 1\<close> seats that returned \<open>i\<close>, cancel
  of \<open>i\<close> succeeds and the pool has exactly the seats it had before the reserve; a second
  cancel of \<open>i\<close> fails with \<open>RESERVATION_NOT_FOUND\<close>.
\<close>

theorem reserve_cancel_round_trip:
  assumes n: "1 \<le> n"
    and pool: "findById db eid = Some e"
    and res: "reserveSeats db eid pid n rid now = (Inr i, db1)"
  shows "\<exists>db2 e2. cancelReservation db1 i now2 = (Inr (), db2) \<and>
           findById db2 eid = Some e2 \<and> available_seats e2 = available_seats e \<and>
           cancelReservation db2 i now3 = (Inl RESERVATION_NOT_FOUND, db2)"
proof -
  from reserveSeats_success[OF res] obtain e0 pre suf where
    h: "events db = pre @ e0 # suf" "\<forall>x\<in>set pre. event_id x \<noteq> eid" "event_id e0 = eid"
       "n \<le> available_seats e0" "i = rid" "rid \<notin> reservation_id ` set (reservations db)"
       "db1 = db\<lparr>events := pre @ e0\<lparr>available_seats := available_seats e0 - n,
                        version := version e0 + 1, updated_at := now\<rparr> # suf,
                   reservations := reservations db @
                       [\<lparr>reservation_id = rid, r_event_id = eid, partner_id = pid, seats = n,
                         status = Confirmed, r_created_at = now, cancelled_at = None\<rparr>]\<rparr>"
    by blast
  from findById_first[OF h(1,2,3)] pool have e0: "e0 = e" by simp
  let ?r = "\<lparr>reservation_id = rid, r_event_id = eid, partner_id = pid, seats = n,
             status = Confirmed, r_created_at = now, cancelled_at = None\<rparr>"
  let ?e1 = "e0\<lparr>available_seats := available_seats e0 - n,
                        version := version e0 + 1, updated_at := now\<rparr>"
  have ev1: "events db1 = pre @ ?e1 # suf" and rs1: "reservations db1 = reservations db @ ?r # []"
    by (simp_all add: h(7))
  define db2 where "db2 = db1\<lparr>events := pre @ ?e1\<lparr>available_seats := available_seats ?e1 + seats ?r,
                        version := version ?e1 + 1, updated_at := now2\<rparr> # suf,
         reservations := reservations db @ ?r\<lparr>status := Cancelled, cancelled_at := Some now2\<rparr> # []\<rparr>"
  have c1: "cancelReservation db1 rid now2 = (Inr (), db2)"
    unfolding db2_def
  proof (rule cancelReservation_run[OF rs1 _ _ _ ev1])
    show "\<forall>x\<in>set (reservations db). reservation_id x \<noteq> rid" using h(6) by auto
    show "\<forall>x\<in>set pre. event_id x \<noteq> r_event_id ?r" using h(2) by simp
    show "0 \<le> available_seats ?e1 + seats ?r" using h(4) n by simp
  qed (simp_all add: h(3))
  have ev2: "events db2 = pre @ ?e1\<lparr>available_seats := available_seats ?e1 + seats ?r,
                        version := version ?e1 + 1, updated_at := now2\<rparr> # suf"
    and rs2: "reservations db2 = reservations db @ ?r\<lparr>status := Cancelled, cancelled_at := Some now2\<rparr> # []"
    by (simp_all add: db2_def)
  have f2: "findById db2 eid = Some (?e1\<lparr>available_seats := available_seats ?e1 + seats ?r,
                        version := version ?e1 + 1, updated_at := now2\<rparr>)"
    by (rule findById_first[OF ev2 h(2)]) (simp add: h(3))
  have "\<forall>x\<in>set (reservations db2). \<not> (reservation_id x = rid \<and> status x = Confirmed)"
  proof
    fix x assume "x \<in> set (reservations db2)"
    then consider "x \<in> set (reservations db)"
      | "x = ?r\<lparr>status := Cancelled, cancelled_at := Some now2\<rparr>" by (auto simp: rs2)
    then show "\<not> (reservation_id x = rid \<and> status x = Confirmed)"
    proof cases
      case 1
      with h(6) show ?thesis by auto
    next
      case 2
      then have "status x = Cancelled" by simp
      then show ?thesis by simp
    qed
  qed
  then have "findConfirmedById db2 rid = None"
    by (simp add: findConfirmedById_def find_None_iff)
  then have c2: "cancelReservation db2 rid now3 = (Inl RESERVATION_NOT_FOUND, db2)"
    by (simp add: cancelReservation_def cancelReservation_try_def abortTransaction_def)
  from c1 c2 f2 show ?thesis using h(5) e0 by simp
qed

text \<open>The theorem at concrete stores.\<close>

theorem reserve_cancel_round_trip_witness:
  "(1::int) \<le> 5 \<and>
   findById (seedData empty_database 0) ''node-meetup-2025'' =
     Some \<lparr>event_id = ''node-meetup-2025'', name = ''Node.js Meet-up'',
            total_seats = 500, available_seats = 500, version = 0,
            created_at = 0, updated_at = 0\<rparr> \<and>
   reserveSeats (seedData empty_database 0) ''node-meetup-2025'' ''a'' 5 ''idA'' 1
     = (Inr ''idA'', db_a) \<and>
   (\<exists>db2 e2. cancelReservation db_a ''idA'' 3 = (Inr (), db2) \<and>
      findById db2 ''node-meetup-2025'' = Some e2 \<and> available_seats e2 = 500 \<and>
      cancelReservation db2 ''idA'' 4 = (Inl RESERVATION_NOT_FOUND, db2))"
proof -
  have n: "(1::int) \<le> 5" by simp
  have f: "findById (seedData empty_database 0) ''node-meetup-2025'' =
     Some \<lparr>event_id = ''node-meetup-2025'', name = ''Node.js Meet-up'',
            total_seats = 500, available_seats = 500, version = 0,
            created_at = 0, updated_at = 0\<rparr>" by code_simp
  have r: "reserveSeats (seedData empty_database 0) ''node-meetup-2025'' ''a'' 5 ''idA'' 1
     = (Inr ''idA'', db_a)" by code_simp
  from reserve_cancel_round_trip[OF n f r, of 3 4] n f r show ?thesis by simp
qed

text \<open>
  Claim C8. \<open>findConfirmedById\<close> returns only a stored reservation with the given id and
  status confirmed. When every stored reservation with that id is cancelled, which covers an
  id that was never created, it returns nothing and cancel fails with
  \<open>RESERVATION_NOT_FOUND\<close>, the store unchanged.
\<close>

theorem findConfirmedById_only_confirmed:
  "(findConfirmedById db i = Some r \<longrightarrow>
      r \<in> set (reservations db) \<and> reservation_id r = i \<and> status r = Confirmed) \<and>
   ((\<forall>x\<in>set (reservations db). reservation_id x = i \<longrightarrow> status x = Cancelled) \<longrightarrow>
      findConfirmedById db i = None \<and>
      cancelReservation db i now = (Inl RESERVATION_NOT_FOUND, db))"
proof (rule conjI; rule impI)
  assume "findConfirmedById db i = Some r"
  from find_split[OF this[unfolded findConfirmedById_def]]
  show "r \<in> set (reservations db) \<and> reservation_id r = i \<and> status r = Confirmed" by auto
next
  assume a: "\<forall>x\<in>set (reservations db). reservation_id x = i \<longrightarrow> status x = Cancelled"
  then have none: "findConfirmedById db i = None"
    by (auto simp: findConfirmedById_def find_None_iff)
  then have "cancelReservation db i now = (Inl RESERVATION_NOT_FOUND, db)"
    by (simp add: cancelReservation_def cancelReservation_try_def abortTransaction_def)
  with none show "findConfirmedById db i = None \<and>
      cancelReservation db i now = (Inl RESERVATION_NOT_FOUND, db)" by simp
qed

text \<open>The theorem at concrete stores.\<close>

theorem findConfirmedById_only_confirmed_witness:
  "findConfirmedById db_a ''idA'' = Some res_a \<and>
   res_a \<in> set (reservations db_a) \<and> reservation_id res_a = ''idA'' \<and>
   status res_a = Confirmed \<and>
   map reservation_id (reservations db_a_cancelled) = [''idA''] \<and>
   map status (reservations db_a_cancelled) = [Cancelled] \<and>
   findConfirmedById db_a_cancelled ''idA'' = None \<and>
   cancelReservation db_a_cancelled ''idA'' 4 = (Inl RESERVATION_NOT_FOUND, db_a_cancelled) \<and>
   findConfirmedById db_a_cancelled ''idZ'' = None \<and>
   cancelReservation db_a_cancelled ''idZ'' 4 = (Inl RESERVATION_NOT_FOUND, db_a_cancelled)"
proof -
  have f: "findConfirmedById db_a ''idA'' = Some res_a" by code_simp
  have m: "map reservation_id (reservations db_a_cancelled) = [''idA'']"
    "map status (reservations db_a_cancelled) = [Cancelled]"
    by (simp_all add: db_a_cancelled_def res_a_def)
  have c: "\<forall>x\<in>set (reservations db_a_cancelled). reservation_id x = ''idA'' \<longrightarrow> status x = Cancelled"
    by (simp add: db_a_cancelled_def)
  have z: "\<forall>x\<in>set (reservations db_a_cancelled). reservation_id x = ''idZ'' \<longrightarrow> status x = Cancelled"
    by (simp add: db_a_cancelled_def)
  from findConfirmedById_only_confirmed[where db = db_a and i = "''idA''" and r = res_a] f
  have 1: "res_a \<in> set (reservations db_a) \<and> reservation_id res_a = ''idA'' \<and>
      status res_a = Confirmed" by blast
  from findConfirmedById_only_confirmed[where db = db_a_cancelled and i = "''idA''" and now = 4] c
  have 2: "findConfirmedById db_a_cancelled ''idA'' = None \<and>
      cancelReservation db_a_cancelled ''idA'' 4 = (Inl RESERVATION_NOT_FOUND, db_a_cancelled)"
    by blast
  from findConfirmedById_only_confirmed[where db = db_a_cancelled and i = "''idZ''" and now = 4] z
  have 3: "findConfirmedById db_a_cancelled ''idZ'' = None \<and>
      cancelReservation db_a_cancelled ''idZ'' 4 = (Inl RESERVATION_NOT_FOUND, db_a_cancelled)"
    by blast
  from f 1 m 2 3 show ?thesis by blast
qed

text \<open>
  Claim C9. \<open>getAllReservations\<close> returns the views of exactly the reservations of the
  given pool, in descending order of creation time, and the list operation leaves the store
  as it is.
\<close>

theorem getAllReservations_newest_first:
  "sorted_wrt (\<lambda>a b. v_createdAt b \<le> v_createdAt a) (getAllReservations db eid) \<and>
   mset (getAllReservations db eid) =
     image_mset view (filter_mset (\<lambda>r. r_event_id r = eid) (mset (reservations db))) \<and>
   run db (ListAll eid) = (Listing (getAllReservations db eid), db)"
proof (intro conjI)
  let ?xs = "filter (\<lambda>r. r_event_id r = eid) (reservations db)"
  have "sorted (map (\<lambda>r. - int (r_created_at r)) (sort_key (\<lambda>r. - int (r_created_at r)) ?xs))"
    by (rule sorted_sort_key)
  then have "sorted_wrt (\<lambda>a b. r_created_at b \<le> r_created_at a)
      (sort_key (\<lambda>r. - int (r_created_at r)) ?xs)"
    by (simp add: sorted_map)
  then show "sorted_wrt (\<lambda>a b. v_createdAt b \<le> v_createdAt a) (getAllReservations db eid)"
    by (simp add: getAllReservations_def sorted_wrt_map view_def)
  show "mset (getAllReservations db eid) =
     image_mset view (filter_mset (\<lambda>r. r_event_id r = eid) (mset (reservations db)))"
    by (simp add: getAllReservations_def)
  show "run db (ListAll eid) = (Listing (getAllReservations db eid), db)" by simp
qed

text \<open>The theorem at concrete stores.\<close>

theorem getAllReservations_newest_first_witness:
  "getAllReservations (run_all (seedData empty_database 0) scenario) ''node-meetup-2025'' =
     [\<lparr>v_reservationId = ''idB'', v_partnerId = ''b'', v_seats = 3, v_status = Confirmed,
       v_createdAt = 2\<rparr>,
      \<lparr>v_reservationId = ''idA'', v_partnerId = ''a'', v_seats = 5, v_status = Cancelled,
       v_createdAt = 1\<rparr>] \<and>
   sorted_wrt (\<lambda>a b. v_createdAt b \<le> v_createdAt a)
     (getAllReservations (run_all (seedData empty_database 0) scenario) ''node-meetup-2025'') \<and>
   snd (run (run_all (seedData empty_database 0) scenario) (ListAll ''node-meetup-2025''))
     = run_all (seedData empty_database 0) scenario"
proof -
  have l: "getAllReservations (run_all (seedData empty_database 0) scenario) ''node-meetup-2025'' =
     [\<lparr>v_reservationId = ''idB'', v_partnerId = ''b'', v_seats = 3, v_status = Confirmed,
       v_createdAt = 2\<rparr>,
      \<lparr>v_reservationId = ''idA'', v_partnerId = ''a'', v_seats = 5, v_status = Cancelled,
       v_createdAt = 1\<rparr>]" by code_simp
  from getAllReservations_newest_first[of "run_all (seedData empty_database 0) scenario"
      "''node-meetup-2025''"]
  have "sorted_wrt (\<lambda>a b. v_createdAt b \<le> v_createdAt a)
     (getAllReservations (run_all (seedData empty_database 0) scenario) ''node-meetup-2025'')"
    and "snd (run (run_all (seedData empty_database 0) scenario) (ListAll ''node-meetup-2025''))
     = run_all (seedData empty_database 0) scenario"
    by simp_all
  with l show ?thesis by blast
qed

text \<open>
  Claim C10. For every delta and expected version, \<open>updateSeatsWithVersion\<close> on an
  event id that matches no record returns false and writes nothing. So when the pool is
  absent from the store the conditional write runs against, a reserve (with enough seats in
  the record it had read) and a cancel both fail with \<open>CONCURRENT_UPDATE_DETECTED\<close>.
\<close>

theorem updateSeatsWithVersion_unknown_pool:
  "(findById db eid = None \<longrightarrow> updateSeatsWithVersion db eid delta v now = (False, db)) \<and>
   (findById w eid = None \<and> \<not> available_seats ev < n \<longrightarrow>
      reserveSeats_after_read w ev eid pid n rid now = (Inl CONCURRENT_UPDATE_DETECTED, w)) \<and>
   (findById w (r_event_id r) = None \<longrightarrow>
      fst (cancelReservation_after_read w r ev i now) = Inl CONCURRENT_UPDATE_DETECTED)"
proof (intro conjI impI)
  assume "findById db eid = None"
  then show "updateSeatsWithVersion db eid delta v now = (False, db)"
    by (rule updateSeatsWithVersion_absent)
next
  assume a: "findById w eid = None \<and> \<not> available_seats ev < n"
  then have "updateSeatsWithVersion w eid (- n) (version ev) now = (False, w)"
    by (simp add: updateSeatsWithVersion_absent)
  with a show "reserveSeats_after_read w ev eid pid n rid now = (Inl CONCURRENT_UPDATE_DETECTED, w)"
    by (simp add: reserveSeats_after_read_def)
next
  assume a: "findById w (r_event_id r) = None"
  obtain changed w1 where c: "cancel w i now = (changed, w1)" by (cases "cancel w i now")
  then have "w1 = snd (cancel w i now)" by simp
  with a have "findById w1 (r_event_id r) = None" by (simp add: findById_cancel)
  then have "updateSeatsWithVersion w1 (r_event_id r) (seats r) (version ev) now = (False, w1)"
    by (rule updateSeatsWithVersion_absent)
  with c show "fst (cancelReservation_after_read w r ev i now) = Inl CONCURRENT_UPDATE_DETECTED"
    by (simp add: cancelReservation_after_read_def)
qed

text \<open>The theorem at concrete stores.\<close>

theorem updateSeatsWithVersion_unknown_pool_witness:
  "findById db_gone ''node-meetup-2025'' = None \<and>
   updateSeatsWithVersion db_gone ''node-meetup-2025'' (- 3) 1 2 = (False, db_gone) \<and>
   \<not> available_seats pool_v1 < 3 \<and>
   reserveSeats_after_read db_gone pool_v1 ''node-meetup-2025'' ''b'' 3 ''idB'' 2
     = (Inl CONCURRENT_UPDATE_DETECTED, db_gone) \<and>
   findById db_gone (r_event_id res_a) = None \<and>
   fst (cancelReservation_after_read db_gone res_a pool_v1 ''idA'' 3)
     = Inl CONCURRENT_UPDATE_DETECTED"
proof -
  have g: "findById db_gone ''node-meetup-2025'' = None" by code_simp
  have g': "findById db_gone (r_event_id res_a) = None" by code_simp
  have a: "\<not> available_seats pool_v1 < 3" by (simp add: pool_v1_def)
  from updateSeatsWithVersion_unknown_pool[where db = db_gone and w = db_gone
      and eid = "''node-meetup-2025''" and delta = "- 3" and v = 1 and now = 2
      and ev = pool_v1 and n = 3 and pid = "''b''" and rid = "''idB''"] g a
  have 1: "updateSeatsWithVersion db_gone ''node-meetup-2025'' (- 3) 1 2 = (False, db_gone)"
    and 2: "reserveSeats_after_read db_gone pool_v1 ''node-meetup-2025'' ''b'' 3 ''idB'' 2
     = (Inl CONCURRENT_UPDATE_DETECTED, db_gone)" by blast+
  from updateSeatsWithVersion_unknown_pool[where w = db_gone and r = res_a and ev = pool_v1
      and i = "''idA''" and now = 3] g'
  have 3: "fst (cancelReservation_after_read db_gone res_a pool_v1 ''idA'' 3)
     = Inl CONCURRENT_UPDATE_DETECTED" by blast
  from g 1 a 2 g' 3 show ?thesis by blast
qed

end
